theory Spec2Isabelle
  imports Complex_Main "HOL-Library.Word" "HOL-Library.Multiset"
begin

section \<open>JavaScript strings\<close>

text \<open>
  A JavaScript string is a sequence of UTF-16 code units. Literals of the source are
  written \<open>js ''...''\<close>.
\<close>

type_synonym jsstring = "16 word list"

definition js :: "string \<Rightarrow> jsstring" where
  "js s = map of_char s"

text \<open>
  \<^verbatim>\<open>String.prototype.trim\<close> strips the code units of the ECMAScript productions
  WhiteSpace (TAB, VT, FF, ZWNBSP and the category Zs) and LineTerminator
  (LF, CR, LS, PS) from both ends.
\<close>

definition is_white :: "16 word \<Rightarrow> bool" where
  "is_white c \<longleftrightarrow>
     c = 0x0009 \<or> c = 0x000A \<or> c = 0x000B \<or> c = 0x000C \<or> c = 0x000D \<or> c = 0x0020 \<or>
     c = 0x00A0 \<or> c = 0x1680 \<or> (0x2000 \<le> c \<and> c \<le> 0x200A) \<or> c = 0x2028 \<or>
     c = 0x2029 \<or> c = 0x202F \<or> c = 0x205F \<or> c = 0x3000 \<or> c = 0xFEFF"

definition trim :: "jsstring \<Rightarrow> jsstring" where
  "trim s = rev (dropWhile is_white (rev (dropWhile is_white s)))"

text \<open>Truthiness of a string: only the empty string is falsy.\<close>

definition truthy :: "jsstring \<Rightarrow> bool" where
  "truthy s \<longleftrightarrow> s \<noteq> []"

text \<open>
  \<^verbatim>\<open>Number.prototype.toString\<close> on a non-negative integer (an epoch in
  milliseconds, an HTTP status): its decimal digits.
\<close>

function toString :: "nat \<Rightarrow> jsstring" where
  "toString n = (if n < 10 then [of_nat (48 + n)] else toString (n div 10) @ [of_nat (48 + n mod 10)])"
  by pat_completeness auto
termination
  by (relation "measure (\<lambda>n. n)") auto

section \<open>The API client (lib/api)\<close>

definition API_BASE_URL :: jsstring where
  "API_BASE_URL = js ''http://localhost:8000''"

text \<open>
  The browser, as far as the client touches it: \<^verbatim>\<open>localStorage\<close> and
  \<^verbatim>\<open>window.location.href\<close>. Outside a browser \<^verbatim>\<open>typeof window\<close> is
  \<^verbatim>\<open>'undefined'\<close>, which is \<open>window = None\<close> below.
\<close>

record browser =
  localStorage :: "jsstring \<rightharpoonup> jsstring"
  href :: jsstring

text \<open>
  The arguments of one \<^verbatim>\<open>fetch\<close> call. \<open>ri_body\<close> is the value handed to
  \<^verbatim>\<open>JSON.stringify\<close>.
\<close>

record 'b request_init =
  ri_method :: "jsstring option"
  ri_body :: "'b option"
  ri_headers :: "jsstring \<rightharpoonup> jsstring"

record 'b fetch_call =
  fc_url :: jsstring
  fc_init :: "'b request_init"

text \<open>
  What \<^verbatim>\<open>response.json()\<close> resolves to. The code reads a parsed body in two ways:
  its \<^verbatim>\<open>detail\<close> property on the error path (\<open>None\<close> when the property is
  absent) and the whole value, typed by the caller's annotation, on the success path.
  \<open>Unparsable\<close> is a body on which \<^verbatim>\<open>json()\<close> rejects.
\<close>

datatype 'a json_body = Unparsable | Parsed (detail: "jsstring option") (payload: 'a)

record 'a response =
  status :: nat
  json :: "'a json_body"

text \<open>\<^verbatim>\<open>Response.ok\<close> is defined by the Fetch standard as a status in 200..299.\<close>

definition ok :: "'a response \<Rightarrow> bool" where
  "ok r \<longleftrightarrow> 200 \<le> status r \<and> status r \<le> 299"

datatype 'a fetch_outcome = Rejected | Response "'a response"

text \<open>
  Errors thrown by the client: \<^verbatim>\<open>new Error(message)\<close>, the rejection of
  \<^verbatim>\<open>fetch\<close> itself, and the rejection of \<^verbatim>\<open>response.json()\<close> on the
  success path.
\<close>

datatype js_error = Error jsstring | FetchRejected | JsonRejected

text \<open>
  The state of the singleton \<^verbatim>\<open>apiClient\<close> together with the browser it runs in.
  \<open>net_log\<close> is a ghost field: every call handed to \<^verbatim>\<open>fetch\<close>, oldest first.
\<close>

record 'b api_state =
  token :: "jsstring option"
  window :: "browser option"
  net_log :: "'b fetch_call list"

definition setToken :: "jsstring \<Rightarrow> 'b api_state \<Rightarrow> 'b api_state" where
  "setToken t s =
     s\<lparr>token := Some t,
       window := map_option (\<lambda>b. b\<lparr>localStorage := (localStorage b)(js ''token'' \<mapsto> t)\<rparr>) (window s)\<rparr>"

definition removeToken :: "'b api_state \<Rightarrow> 'b api_state" where
  "removeToken s =
     s\<lparr>token := None,
       window := map_option (\<lambda>b. b\<lparr>localStorage := (localStorage b)(js ''token'' := None)\<rparr>) (window s)\<rparr>"

definition isAuthenticated :: "'b api_state \<Rightarrow> bool" where
  "isAuthenticated s \<longleftrightarrow> token s \<noteq> None"

definition getToken :: "'b api_state \<Rightarrow> jsstring option" where
  "getToken s = token s"

text \<open>Lines 145-164 of \<^verbatim>\<open>request\<close>: the URL and the merged headers.\<close>

definition request_call :: "jsstring \<Rightarrow> 'b request_init \<Rightarrow> 'b api_state \<Rightarrow> 'b fetch_call" where
  "request_call endpoint options s =
     (let url = API_BASE_URL @ endpoint;
          headers = [js ''Content-Type'' \<mapsto> js ''application/json''] ++ ri_headers options;
          headers' = (case token s of
                        None \<Rightarrow> headers
                      | Some t \<Rightarrow> if truthy t
                                  then headers(js ''Authorization'' \<mapsto> js ''Bearer '' @ t)
                                  else headers)
      in \<lparr>fc_url = url, fc_init = options\<lparr>ri_headers := headers'\<rparr>\<rparr>)"

text \<open>
  Lines 166-179 of \<^verbatim>\<open>request\<close>. \<open>fetch\<close> is the network: it maps a call to its
  outcome.
\<close>

definition request ::
  "('b fetch_call \<Rightarrow> 'a fetch_outcome) \<Rightarrow> jsstring \<Rightarrow> 'b request_init \<Rightarrow> 'b api_state
     \<Rightarrow> (js_error + 'a) \<times> 'b api_state" where
  "request fetch endpoint options s =
     (let call = request_call endpoint options s;
          s1 = s\<lparr>net_log := net_log s @ [call]\<rparr>
      in case fetch call of
           Rejected \<Rightarrow> (Inl FetchRejected, s1)
         | Response r \<Rightarrow>
             if \<not> ok r then
               (let s2 = (if status r = 401
                          then (removeToken s1)\<lparr>window :=
                                  map_option (\<lambda>b. b\<lparr>href := js ''/login''\<rparr>) (window (removeToken s1))\<rparr>
                          else s1);
                    fallback = js ''HTTP error! status: '' @ toString (status r);
                    message = (case json r of
                                 Unparsable \<Rightarrow> js ''An error occurred''
                               | Parsed None v \<Rightarrow> fallback
                               | Parsed (Some d) v \<Rightarrow> if truthy d then d else fallback)
                in (Inl (Error message), s2))
             else (case json r of
                     Unparsable \<Rightarrow> (Inl JsonRejected, s1)
                   | Parsed d v \<Rightarrow> (Inr v, s1)))"

text \<open>
  The constructor reads the stored token when there is a browser.
\<close>

definition new_ApiClient :: "browser option \<Rightarrow> 'b api_state" where
  "new_ApiClient w =
     \<lparr>token = (case w of None \<Rightarrow> None | Some b \<Rightarrow> localStorage b (js ''token'')),
      window = w, net_log = []\<rparr>"

record QuestionAnswerResponse =
  answer :: jsstring
  qa_context :: "jsstring list"
  qa_sources :: "jsstring list"

text \<open>The object \<^verbatim>\<open>askQuestion\<close> serialises as the body of its request.\<close>

record 'n ask_body =
  question :: jsstring
  paper_id :: "'n option"
  session_id :: "nat option"

definition askQuestion ::
  "('n ask_body fetch_call \<Rightarrow> QuestionAnswerResponse fetch_outcome) \<Rightarrow> jsstring \<Rightarrow> 'n option
     \<Rightarrow> nat option \<Rightarrow> 'n ask_body api_state
     \<Rightarrow> (js_error + QuestionAnswerResponse) \<times> 'n ask_body api_state" where
  "askQuestion fetch q paperId sessionId s =
     request fetch (js ''/chat/ask'')
       \<lparr>ri_method = Some (js ''POST''),
        ri_body = Some \<lparr>question = q, paper_id = paperId, session_id = sessionId\<rparr>,
        ri_headers = Map.empty\<rparr> s"

section \<open>The chat interface (components/chat-interface)\<close>

datatype role = User | Assistant

record Message =
  message_id :: jsstring
  message_role :: role
  content :: jsstring
  timestamp :: nat
  suggestions :: "jsstring list option"
  sources :: "jsstring list option"

record ChatSession =
  cs_id :: nat
  cs_user_id :: nat
  cs_paper_id :: "nat option"
  cs_title :: jsstring
  cs_created_at :: jsstring
  cs_updated_at :: jsstring

record Paper =
  p_id :: nat
  p_title :: jsstring
  p_authors :: "jsstring option"
  p_abstract :: "jsstring option"
  p_full_text :: "jsstring option"
  p_file_path :: jsstring
  p_file_size :: nat
  p_upload_date :: jsstring
  p_owner_id :: nat
  p_status :: jsstring

text \<open>The component's state, as its \<^verbatim>\<open>useState\<close> hooks hold it.\<close>

record chat_state =
  messages :: "Message list"
  input :: jsstring
  isLoading :: bool
  currentSession :: "ChatSession option"
  selectedPaperData :: "Paper option"

text \<open>
  The readings of the clock during one \<^verbatim>\<open>handleSendMessage\<close>:
  \<^verbatim>\<open>Date.now()\<close> and \<^verbatim>\<open>new Date()\<close> for the user's message, and again for the
  reply.
\<close>

record send_clock =
  now_sent :: nat
  date_sent :: nat
  now_replied :: nat
  date_replied :: nat

text \<open>
  \<^verbatim>\<open>handleSendMessage\<close>, run to the end of its promise. \<open>selectedPaper\<close> is the
  component's property (\<^verbatim>\<open>string | null\<close>); \<open>parseInt\<close> is the built-in.
\<close>

definition handleSendMessage ::
  "('n ask_body fetch_call \<Rightarrow> QuestionAnswerResponse fetch_outcome) \<Rightarrow> (jsstring \<Rightarrow> 'n)
     \<Rightarrow> send_clock \<Rightarrow> jsstring option \<Rightarrow> chat_state \<times> 'n ask_body api_state
     \<Rightarrow> chat_state \<times> 'n ask_body api_state" where
  "handleSendMessage fetch parseInt clk selectedPaper st =
     (let ui = fst st; api = snd st in
      if \<not> truthy (trim (input ui)) then st
      else case currentSession ui of
        None \<Rightarrow> st
      | Some session \<Rightarrow>
          (let userMessage =
                 \<lparr>message_id = toString (now_sent clk), message_role = User, content = input ui,
                  timestamp = date_sent clk, suggestions = None, sources = None\<rparr>;
               ui1 = ui\<lparr>messages := messages ui @ [userMessage], input := [], isLoading := True\<rparr>;
               paperId = (case selectedPaper of
                            None \<Rightarrow> None
                          | Some p \<Rightarrow> if truthy p then Some (parseInt p) else None);
               (res, api') = askQuestion fetch (input ui) paperId (Some (cs_id session)) api;
               reply = (case res of
                   Inr response \<Rightarrow>
                     \<lparr>message_id = toString (now_replied clk + 1), message_role = Assistant,
                      content = answer response, timestamp = date_replied clk,
                      suggestions = None, sources = Some (qa_sources response)\<rparr>
                 | Inl error \<Rightarrow>
                     \<lparr>message_id = toString (now_replied clk + 1), message_role = Assistant,
                      content = js (''I apologize, but I encountered an error processing '' @
                                    ''your question. Please try again.''),
                      timestamp = date_replied clk, suggestions = None, sources = None\<rparr>)
           in (ui1\<lparr>messages := messages ui1 @ [reply], isLoading := False\<rparr>, api')))"

section \<open>The chunker (specification, section 4.1)\<close>

text \<open>
  Modelled from the spec: the chunker is backend code that is not among the sources. A
  chunk is its ordinal position, its span of offsets into the raw text, and a
  token-length estimate; sizes are counted in characters, the token-equivalent unit.
\<close>

record chunk =
  ordinal :: nat
  span_start :: nat
  span_end :: nat
  token_length :: nat

text \<open>Modelled from the spec: the characters of a "whitespace-only" input.\<close>

definition whitespace :: "char \<Rightarrow> bool" where
  "whitespace c \<longleftrightarrow>
     c = CHR '' '' \<or> c = CHR 0x09 \<or> c = CHR 0x0A \<or> c = CHR 0x0B \<or> c = CHR 0x0C \<or> c = CHR 0x0D"

text \<open>
  Modelled from the spec: the "paragraph/sentence boundaries". A sentence ends with a
  full stop, an exclamation mark or a question mark, a paragraph with a line feed.
\<close>

definition boundary :: "char \<Rightarrow> bool" where
  "boundary c \<longleftrightarrow> c = CHR ''.'' \<or> c = CHR ''!'' \<or> c = CHR ''?'' \<or> c = CHR 0x0A"

text \<open>
  Modelled from the spec: "splits on paragraph/sentence boundaries where possible". The
  largest cut \<open>e\<close> with \<open>lo < e \<le> hi\<close> that falls right after a boundary character,
  if there is one.
\<close>

fun last_break :: "string \<Rightarrow> nat \<Rightarrow> nat \<Rightarrow> nat option" where
  "last_break t lo 0 = None"
| "last_break t lo (Suc e) =
     (if Suc e \<le> lo \<or> length t \<le> e then None
      else if boundary (t ! e) then Some (Suc e)
      else last_break t lo e)"

text \<open>
  Modelled from the spec: the spans from offset \<open>s\<close> on. A chunk holds at most
  \<open>target\<close> characters and ends at the last boundary that leaves it longer than the
  overlap, or at a hard cut when its window holds no such boundary; the next chunk starts
  \<open>ov\<close> characters before that end ("overlap duplicates trailing content into the next
  chunk's start"). The last chunk takes what is left. Parameters under which no window
  can advance (\<open>target \<le> ov\<close>) give one chunk.
\<close>

function spans_from :: "string \<Rightarrow> nat \<Rightarrow> nat \<Rightarrow> nat \<Rightarrow> (nat \<times> nat) list" where
  "spans_from t target ov s =
     (if target \<le> ov \<or> length t \<le> s + target then [(s, length t)]
      else (let e = (case last_break t (s + ov) (s + target) of
                       None \<Rightarrow> s + target
                     | Some b \<Rightarrow> b)
            in (s, e) # spans_from t target ov (e - ov)))"
  by pat_completeness auto
termination
proof (relation "measure (\<lambda>(t, target, ov, s). length t - s)", goal_cases)
  case 1
  show ?case by simp
next
  case (2 t target ov s e)
  have above: "lo < b" if "last_break t lo hi = Some b" for lo hi b
    using that by (induction hi) (auto split: if_splits)
  from 2 have "s + ov < e"
    by (auto split: option.splits dest: above)
  with 2 show ?case by auto
qed

text \<open>
  Modelled from the spec: \<open>chunk(text, target_size, overlap)\<close>. "Empty or
  whitespace-only input yields an empty sequence, not an error."
\<close>

definition chunk :: "string \<Rightarrow> nat \<Rightarrow> nat \<Rightarrow> chunk list" where
  "chunk t target overlap =
     (if list_all whitespace t then []
      else map (\<lambda>(i, (s, e)). \<lparr>ordinal = i, span_start = s, span_end = e, token_length = e - s\<rparr>)
             (enumerate 0 (spans_from t target overlap 0)))"

text \<open>
  Modelled from the spec: the text a span of offsets denotes, and with it the text of a
  chunk.
\<close>

definition span_text :: "string \<Rightarrow> nat \<times> nat \<Rightarrow> string" where
  "span_text t p = take (snd p - fst p) (drop (fst p) t)"

definition chunk_text :: "string \<Rightarrow> chunk \<Rightarrow> string" where
  "chunk_text t c = span_text t (span_start c, span_end c)"

text \<open>
  Modelled from the spec: "concatenating chunk spans (minus overlap)": the first chunk's
  text, then every later chunk's text without its first \<open>overlap\<close> characters.
\<close>

definition reconstruct :: "nat \<Rightarrow> string list \<Rightarrow> string" where
  "reconstruct overlap texts =
     (case texts of [] \<Rightarrow> [] | x # xs \<Rightarrow> x @ concat (map (drop overlap) xs))"

section \<open>The vector index (specification, section 4.3)\<close>

text \<open>
  Modelled from the spec: the Vector Index is backend code that is not among the
  sources. An IndexEntry is (chunk identifier, vector, owning-user scope, document
  identifier).
\<close>

record 'v IndexEntry =
  entry_chunk :: nat
  entry_vector :: 'v
  entry_scope :: nat
  entry_document :: nat

text \<open>
  Modelled from the spec: one element of a RetrievalResult, (chunk identifier, similarity
  score, source document identifier).
\<close>

record 's hit =
  hit_chunk :: nat
  hit_score :: 's
  hit_document :: nat

text \<open>Modelled from the spec: the error taxonomy of section 7.\<close>

datatype core_error =
  IngestionFailure | ModelMismatch | GenerationFailed | ScopeViolation | DeadlineInfeasible

text \<open>
  Modelled from the spec: "ordered descending by score; ties broken by
  most-recent-document-first". \<open>uploaded\<close> gives a document's upload time, which the
  document source supplies.
\<close>

definition ranks_before :: "(nat \<Rightarrow> nat) \<Rightarrow> ('s::linorder) hit \<Rightarrow> 's hit \<Rightarrow> bool" where
  "ranks_before uploaded a b \<longleftrightarrow>
     hit_score b < hit_score a \<or>
     (hit_score a = hit_score b \<and> uploaded (hit_document b) \<le> uploaded (hit_document a))"

text \<open>Modelled from the spec: the ordering of the results, by insertion.\<close>

fun insert_hit :: "(nat \<Rightarrow> nat) \<Rightarrow> ('s::linorder) hit \<Rightarrow> 's hit list \<Rightarrow> 's hit list" where
  "insert_hit uploaded h [] = [h]"
| "insert_hit uploaded h (x # xs) =
     (if ranks_before uploaded h x then h # x # xs else x # insert_hit uploaded h xs)"

fun sort_hits :: "(nat \<Rightarrow> nat) \<Rightarrow> ('s::linorder) hit list \<Rightarrow> 's hit list" where
  "sort_hits uploaded [] = []"
| "sort_hits uploaded (h # hs) = insert_hit uploaded h (sort_hits uploaded hs)"

text \<open>
  Modelled from the spec: "k defaults to a configured top value (e.g., 5) and is clamped
  to [1, index size]". \<open>top_k\<close> is the configured value, \<open>k\<close> the caller's, if any.
\<close>

definition effective_k :: "int \<Rightarrow> int option \<Rightarrow> nat \<Rightarrow> int" where
  "effective_k top_k k index_size =
     (let requested = (case k of None \<Rightarrow> top_k | Some k' \<Rightarrow> k')
      in if requested < 1 then 1
         else if int index_size < requested then max 1 (int index_size)
         else requested)"

text \<open>
  Modelled from the spec: the entries a query may see: those of the scope and, with a
  filter, of the one document.
\<close>

definition candidates :: "'v IndexEntry list \<Rightarrow> nat \<Rightarrow> nat option \<Rightarrow> 'v IndexEntry list" where
  "candidates index scope flt =
     filter (\<lambda>e. entry_scope e = scope \<and> (case flt of None \<Rightarrow> True | Some d \<Rightarrow> entry_document e = d))
       index"

text \<open>
  Modelled from the spec: \<open>query(vector, k, scope, filter?)\<close>, issued by the user
  \<open>requester\<close>. \<open>sim\<close> is the similarity of two vectors (cosine similarity in the
  specification). A scope other than the requester's own is rejected.
\<close>

definition query ::
  "('v \<Rightarrow> 'v \<Rightarrow> 's::linorder) \<Rightarrow> (nat \<Rightarrow> nat) \<Rightarrow> int \<Rightarrow> 'v IndexEntry list \<Rightarrow> nat \<Rightarrow> 'v
     \<Rightarrow> int option \<Rightarrow> nat \<Rightarrow> nat option \<Rightarrow> core_error + 's hit list" where
  "query sim uploaded top_k index requester vector k scope flt =
     (if scope \<noteq> requester then Inl ScopeViolation
      else Inr (take (nat (effective_k top_k k (length index)))
                  (sort_hits uploaded
                     (map (\<lambda>e. \<lparr>hit_chunk = entry_chunk e, hit_score = sim vector (entry_vector e),
                                hit_document = entry_document e\<rparr>)
                        (candidates index scope flt)))))"

section \<open>Example inputs\<close>

definition signed_in :: "unit ask_body api_state" where
  "signed_in =
     \<lparr>token = Some (js ''secret''),
      window = Some \<lparr>localStorage = [js ''token'' \<mapsto> js ''secret''], href = js ''/''\<rparr>,
      net_log = []\<rparr>"

definition answers_with :: "nat \<Rightarrow> unit ask_body fetch_call \<Rightarrow> QuestionAnswerResponse fetch_outcome" where
  "answers_with code call = Response \<lparr>status = code, json = Unparsable\<rparr>"

definition get_options :: "unit ask_body request_init" where
  "get_options = \<lparr>ri_method = None, ri_body = None, ri_headers = Map.empty\<rparr>"

definition open_session :: ChatSession where
  "open_session =
     \<lparr>cs_id = 3, cs_user_id = 1, cs_paper_id = None, cs_title = js ''General Chat'',
      cs_created_at = js ''2025-01-01'', cs_updated_at = js ''2025-01-01''\<rparr>"

definition typing :: "jsstring \<Rightarrow> ChatSession option \<Rightarrow> chat_state" where
  "typing text session =
     \<lparr>messages = [], input = text, isLoading = False, currentSession = session,
      selectedPaperData = None\<rparr>"

definition two_users_index :: "int IndexEntry list" where
  "two_users_index =
     [\<lparr>entry_chunk = 1, entry_vector = 2, entry_scope = 7, entry_document = 1\<rparr>,
      \<lparr>entry_chunk = 2, entry_vector = 3, entry_scope = 7, entry_document = 1\<rparr>,
      \<lparr>entry_chunk = 3, entry_vector = 3, entry_scope = 7, entry_document = 2\<rparr>,
      \<lparr>entry_chunk = 4, entry_vector = 9, entry_scope = 8, entry_document = 3\<rparr>]"

text \<open>
  The recursive equations of \<open>toString\<close> and \<open>spans_from\<close> are applied by hand,
  where a proof needs them.
\<close>

declare toString.simps [simp del]
declare spans_from.simps [simp del]

section \<open>The API client drops the token on 401\<close>

text \<open>
  C9. A request through \<open>request\<close> whose response has status 401 ends with an error
  and with the token removed, from the client and from \<^verbatim>\<open>localStorage\<close>, so that
  \<open>isAuthenticated\<close> is false afterwards; a response with any other error status ends
  with an error too and leaves the token, and the browser, as they were.
\<close>

theorem request_unauthorized_clears_token:
  assumes "fetch (request_call endpoint options s) = Response r"
    and "request fetch endpoint options s = (res, s')"
  shows "(status r = 401 \<longrightarrow>
           (\<exists>e. res = Inl e) \<and> token s' = None \<and> \<not> isAuthenticated s' \<and>
           (\<forall>b. window s' = Some b \<longrightarrow> localStorage b (js ''token'') = None)) \<and>
         (\<not> ok r \<and> status r \<noteq> 401 \<longrightarrow>
           (\<exists>e. res = Inl e) \<and> token s' = token s \<and> window s' = window s \<and>
           isAuthenticated s' = isAuthenticated s)"
proof (intro conjI impI)
  assume unauthorized: "status r = 401"
  then have "\<not> ok r"
    by (simp add: ok_def)
  with assms unauthorized
  have s': "s' = (removeToken (s\<lparr>net_log := net_log s @ [request_call endpoint options s]\<rparr>))
                   \<lparr>window := map_option (\<lambda>b. b\<lparr>href := js ''/login''\<rparr>)
                      (window (removeToken (s\<lparr>net_log := net_log s @ [request_call endpoint options s]\<rparr>)))\<rparr>"
    and res: "\<exists>e. res = Inl e"
    by (auto simp: request_def Let_def)
  from res show "\<exists>e. res = Inl e" .
  from s' show "token s' = None"
    by (simp add: removeToken_def)
  then show "\<not> isAuthenticated s'"
    by (simp add: isAuthenticated_def)
  from s' show "\<forall>b. window s' = Some b \<longrightarrow> localStorage b (js ''token'') = None"
    by (auto simp: removeToken_def)
next
  assume other: "\<not> ok r \<and> status r \<noteq> 401"
  with assms have s': "s' = s\<lparr>net_log := net_log s @ [request_call endpoint options s]\<rparr>"
    and res: "\<exists>e. res = Inl e"
    by (auto simp: request_def Let_def)
  from res show "\<exists>e. res = Inl e" .
  from s' show "token s' = token s" "window s' = window s" "isAuthenticated s' = isAuthenticated s"
    by (simp_all add: isAuthenticated_def)
qed

text \<open>
  C9 at a signed-in client: a 401 signs it out, a 500 leaves the token in place.
\<close>

theorem request_unauthorized_clears_token_witness:
  "isAuthenticated signed_in \<and>
   \<not> isAuthenticated (snd (request (answers_with 401) (js ''/users/me'') get_options signed_in)) \<and>
   token (snd (request (answers_with 401) (js ''/users/me'') get_options signed_in)) = None \<and>
   token (snd (request (answers_with 500) (js ''/users/me'') get_options signed_in)) = Some (js ''secret'')"
proof -
  let ?r401 = "request (answers_with 401) (js ''/users/me'') get_options signed_in"
  let ?r500 = "request (answers_with 500) (js ''/users/me'') get_options signed_in"
  have "answers_with 401 (request_call (js ''/users/me'') get_options signed_in)
          = Response \<lparr>status = 401, json = Unparsable\<rparr>"
    by (simp add: answers_with_def)
  moreover have "?r401 = (fst ?r401, snd ?r401)"
    by simp
  ultimately have unauthorized: "\<not> isAuthenticated (snd ?r401) \<and> token (snd ?r401) = None"
    using request_unauthorized_clears_token
      [of "answers_with 401" "js ''/users/me''" get_options signed_in _ "fst ?r401" "snd ?r401"]
    by simp
  have "answers_with 500 (request_call (js ''/users/me'') get_options signed_in)
          = Response \<lparr>status = 500, json = Unparsable\<rparr>"
    by (simp add: answers_with_def)
  moreover have "?r500 = (fst ?r500, snd ?r500)"
    by simp
  ultimately have "token (snd ?r500) = token signed_in"
    using request_unauthorized_clears_token
      [of "answers_with 500" "js ''/users/me''" get_options signed_in _ "fst ?r500" "snd ?r500"]
    by (simp add: ok_def)
  with unauthorized show ?thesis
    by (simp add: signed_in_def isAuthenticated_def)
qed

section \<open>The guard of handleSendMessage\<close>

lemma trim_empty_iff: "trim s = [] \<longleftrightarrow> list_all is_white s"
proof
  assume "trim s = []"
  then have all_rest: "\<forall>c\<in>set (dropWhile is_white s). is_white c"
    by (simp add: trim_def dropWhile_eq_Nil_conv)
  have "dropWhile is_white s = []"
  proof (rule ccontr)
    assume "dropWhile is_white s \<noteq> []"
    then have "\<not> is_white (hd (dropWhile is_white s))"
      and "hd (dropWhile is_white s) \<in> set (dropWhile is_white s)"
      by (simp_all add: hd_dropWhile)
    with all_rest show False by blast
  qed
  then show "list_all is_white s"
    by (simp add: dropWhile_eq_Nil_conv list_all_iff)
next
  assume "list_all is_white s"
  then have rest: "dropWhile is_white s = []"
    unfolding dropWhile_eq_Nil_conv list_all_iff .
  show "trim s = []"
    unfolding trim_def rest by simp
qed

text \<open>
  C10. When the input is empty or holds white space only, or when there is no chat
  session, \<open>handleSendMessage\<close> returns at once: no call reaches \<^verbatim>\<open>fetch\<close>, and
  the component's state, the message list and the input with it, is what it was.
\<close>

theorem handleSendMessage_guard:
  assumes "list_all is_white (input ui) \<or> currentSession ui = None"
    and "handleSendMessage fetch parseInt clk selectedPaper (ui, api) = (ui', api')"
  shows "ui' = ui \<and> api' = api \<and> net_log api' = net_log api \<and>
         messages ui' = messages ui \<and> input ui' = input ui"
proof -
  from assms(1) have "\<not> truthy (trim (input ui)) \<or> currentSession ui = None"
    by (simp add: truthy_def trim_empty_iff)
  then have "handleSendMessage fetch parseInt clk selectedPaper (ui, api) = (ui, api)"
    by (auto simp: handleSendMessage_def)
  with assms(2) show ?thesis by simp
qed

text \<open>
  C10 at two states: blank input with a session, and a question with no session.
\<close>

theorem handleSendMessage_guard_witness:
  "handleSendMessage (answers_with 200) (\<lambda>p. ())
     \<lparr>now_sent = 10, date_sent = 10, now_replied = 20, date_replied = 20\<rparr>
     None (typing (js ''  '') (Some open_session), signed_in)
     = (typing (js ''  '') (Some open_session), signed_in) \<and>
   net_log (snd (handleSendMessage (answers_with 200) (\<lambda>p. ())
     \<lparr>now_sent = 10, date_sent = 10, now_replied = 20, date_replied = 20\<rparr>
     None (typing (js ''hello'') None, signed_in))) = []"
proof -
  let ?clk = "\<lparr>now_sent = 10, date_sent = 10, now_replied = 20, date_replied = 20\<rparr>"
  let ?blank = "handleSendMessage (answers_with 200) (\<lambda>p. ()) ?clk None
                  (typing (js ''  '') (Some open_session), signed_in)"
  let ?nosession = "handleSendMessage (answers_with 200) (\<lambda>p. ()) ?clk None
                      (typing (js ''hello'') None, signed_in)"
  have "list_all is_white (input (typing (js ''  '') (Some open_session))) \<or>
        currentSession (typing (js ''  '') (Some open_session)) = None"
    by (simp add: typing_def js_def is_white_def)
  moreover have "?blank = (fst ?blank, snd ?blank)"
    by simp
  ultimately have blank: "fst ?blank = typing (js ''  '') (Some open_session) \<and> snd ?blank = signed_in"
    using handleSendMessage_guard by blast
  have "list_all is_white (input (typing (js ''hello'') None)) \<or>
        currentSession (typing (js ''hello'') None) = None"
    by (simp add: typing_def)
  moreover have "?nosession = (fst ?nosession, snd ?nosession)"
    by simp
  ultimately have "net_log (snd ?nosession) = net_log signed_in"
    using handleSendMessage_guard by blast
  then have "net_log (snd ?nosession) = []"
    by (simp add: signed_in_def)
  with blank show ?thesis
    by (metis prod.collapse)
qed

text \<open>
  Past the guard the handler does send: one call more in the log, the user's message and
  a reply appended, the input cleared.
\<close>

lemma net_log_request:
  "net_log (snd (request fetch endpoint options s)) = net_log s @ [request_call endpoint options s]"
  by (auto simp: request_def Let_def removeToken_def
      split: fetch_outcome.splits json_body.splits option.splits)

lemma net_log_askQuestion:
  assumes "askQuestion fetch q paperId sessionId s = (res, s')"
  shows "length (net_log s') = Suc (length (net_log s))"
proof -
  have "length (net_log (snd (askQuestion fetch q paperId sessionId s))) = Suc (length (net_log s))"
    by (simp add: askQuestion_def net_log_request)
  with assms show ?thesis by simp
qed

lemma handleSendMessage_sends:
  assumes "\<not> list_all is_white (input ui)" and "currentSession ui = Some session"
    and "handleSendMessage fetch parseInt clk selectedPaper (ui, api) = (ui', api')"
  shows "length (net_log api') = Suc (length (net_log api)) \<and>
         length (messages ui') = length (messages ui) + 2 \<and> input ui' = [] \<and> \<not> isLoading ui'"
proof -
  from assms(1) have t: "truthy (trim (input ui))"
    by (simp add: truthy_def trim_empty_iff)
  define paperId where
    "paperId = (case selectedPaper of None \<Rightarrow> None
                | Some p \<Rightarrow> if truthy p then Some (parseInt p) else None)"
  obtain res api1
    where ask: "askQuestion fetch (input ui) paperId (Some (cs_id session)) api = (res, api1)"
    by (cases "askQuestion fetch (input ui) paperId (Some (cs_id session)) api")
  from assms(2,3) t ask have "api' = api1"
    by (simp add: handleSendMessage_def Let_def paperId_def)
  with net_log_askQuestion [OF ask] have "length (net_log api') = Suc (length (net_log api))"
    by simp
  moreover from assms(2,3) t ask
  have "length (messages ui') = length (messages ui) + 2 \<and> input ui' = [] \<and> \<not> isLoading ui'"
    by (auto simp: handleSendMessage_def Let_def paperId_def)
  ultimately show ?thesis by simp
qed

section \<open>The chunker covers the text\<close>

lemma last_break_bounds: "last_break t lo hi = Some b \<Longrightarrow> lo < b \<and> b \<le> hi"
  by (induction hi) (auto split: if_splits)

text \<open>
  The first span from \<open>s\<close> starts at \<open>s\<close>, and ends at the end of the text or more
  than the overlap further on.
\<close>

lemma spans_from_first:
  assumes "s \<le> length t"
  shows "\<exists>e rest. spans_from t target ov s = (s, e) # rest \<and> s \<le> e \<and> e \<le> length t \<and>
           (e = length t \<or> s + ov < e)"
proof (cases "target \<le> ov \<or> length t \<le> s + target")
  case True
  with assms show ?thesis
    by (subst spans_from.simps) simp
next
  case False
  show ?thesis
  proof (cases "last_break t (s + ov) (s + target)")
    case None
    with False show ?thesis
      by (subst spans_from.simps) (auto simp: Let_def)
  next
    case (Some b)
    from last_break_bounds [OF Some] False Some show ?thesis
      by (subst spans_from.simps) (auto simp: Let_def)
  qed
qed

lemma take_drop_rejoin:
  assumes "s \<le> e"
  shows "take (e - s) (drop s t) @ drop e t = drop s t"
proof -
  from assms have "drop e t = drop (e - s) (drop s t)"
    by simp
  then show ?thesis
    by (simp only: append_take_drop_id)
qed

lemma reconstruct_spans:
  "s \<le> length t \<Longrightarrow> reconstruct ov (map (span_text t) (spans_from t target ov s)) = drop s t"
proof (induction t target ov s rule: spans_from.induct)
  case (1 t target ov s)
  show ?case
  proof (cases "target \<le> ov \<or> length t \<le> s + target")
    case True
    then have "spans_from t target ov s = [(s, length t)]"
      by (subst spans_from.simps) simp
    then show ?thesis
      by (simp add: reconstruct_def span_text_def)
  next
    case False
    define e where
      "e = (case last_break t (s + ov) (s + target) of None \<Rightarrow> s + target | Some b \<Rightarrow> b)"
    have e: "s + ov < e" "e \<le> s + target"
      using False last_break_bounds [of t "s + ov" "s + target"]
      by (auto simp: e_def split: option.splits)
    with False have e_len: "e \<le> length t" "e - ov \<le> length t"
      by auto
    from False have unfold: "spans_from t target ov s = (s, e) # spans_from t target ov (e - ov)"
      by (subst spans_from.simps) (simp add: e_def Let_def)
    from "1.IH" [OF False e_def e_len(2)]
    have IH: "reconstruct ov (map (span_text t) (spans_from t target ov (e - ov))) = drop (e - ov) t"
      by simp
    obtain e' rest where nxt: "spans_from t target ov (e - ov) = (e - ov, e') # rest"
      and e': "e' \<le> length t" "e' = length t \<or> e - ov + ov < e'"
      using spans_from_first [OF e_len(2), of target ov] by blast
    from e e' e_len have ge: "e \<le> e'"
      by auto
    have long: "ov \<le> length (span_text t (e - ov, e'))"
      using ge e e' by (simp add: span_text_def)
    have "reconstruct ov (map (span_text t) (spans_from t target ov s))
            = span_text t (s, e) @ drop ov (span_text t (e - ov, e')) @
              concat (map (drop ov \<circ> span_text t) rest)"
      by (simp add: unfold nxt reconstruct_def)
    also have "\<dots> = span_text t (s, e) @
                    drop ov (span_text t (e - ov, e') @ concat (map (drop ov \<circ> span_text t) rest))"
      using long by simp
    also have "span_text t (e - ov, e') @ concat (map (drop ov \<circ> span_text t) rest) = drop (e - ov) t"
      using IH by (simp add: nxt reconstruct_def)
    also have "span_text t (s, e) @ drop ov (drop (e - ov) t) = drop s t"
    proof -
      from e have "ov + (e - ov) = e" by simp
      then have "drop ov (drop (e - ov) t) = drop e t"
        by simp
      moreover from e have "take (e - s) (drop s t) @ drop e t = drop s t"
        by (intro take_drop_rejoin) simp
      ultimately show ?thesis
        by (simp add: span_text_def)
    qed
    finally show ?thesis .
  qed
qed

lemma chunk_texts:
  assumes "\<not> list_all whitespace t"
  shows "map (chunk_text t) (chunk t target ov) = map (span_text t) (spans_from t target ov 0)"
proof -
  from assms have "map (chunk_text t) (chunk t target ov)
       = map (span_text t \<circ> snd) (enumerate 0 (spans_from t target ov 0))"
    by (auto simp: chunk_def chunk_text_def)
  also have "\<dots> = map (span_text t) (map snd (enumerate 0 (spans_from t target ov 0)))"
    by (simp only: map_map)
  also have "\<dots> = map (span_text t) (spans_from t target ov 0)"
    by (simp only: map_snd_enumerate)
  finally show ?thesis .
qed

text \<open>The example of the specification: "A. B. C." gives "A. B." and "B. C.".\<close>

lemma chunk_example:
  "map (chunk_text ''A. B. C.'') (chunk ''A. B. C.'' 5 2) = [''A. B.'', ''B. C.'']"
  by code_simp

text \<open>
  C2, as amended. \<open>chunk\<close> is a function of the text and the two parameters, defined
  for all of them, so it is total and gives the same chunks on every run. For a text that
  is not white space only, the chunks are not empty and their texts, joined with the
  overlap removed, are the text again. For a text of white space only there are no
  chunks, and what they join to is the empty string.
\<close>

theorem chunk_reconstructs:
  "(\<not> list_all whitespace t \<longrightarrow>
      chunk t target overlap \<noteq> [] \<and>
      reconstruct overlap (map (chunk_text t) (chunk t target overlap)) = t) \<and>
   (list_all whitespace t \<longrightarrow>
      chunk t target overlap = [] \<and>
      reconstruct overlap (map (chunk_text t) (chunk t target overlap)) = [])"
proof (intro conjI impI)
  assume nonblank: "\<not> list_all whitespace t"
  from reconstruct_spans [of 0 t overlap target] chunk_texts [OF nonblank]
  show "reconstruct overlap (map (chunk_text t) (chunk t target overlap)) = t"
    by simp
  from spans_from_first [of 0 t target overlap] nonblank
  show "chunk t target overlap \<noteq> []"
    by (auto simp: chunk_def)
next
  assume blank: "list_all whitespace t"
  then show "chunk t target overlap = []"
    by (simp add: chunk_def)
  then show "reconstruct overlap (map (chunk_text t) (chunk t target overlap)) = []"
    by (simp add: reconstruct_def)
qed

text \<open>
  C2, as amended, at the specification's example and at a text of a space and a line
  feed.
\<close>

theorem chunk_reconstructs_witness:
  "\<not> list_all whitespace ''A. B. C.'' \<and>
   map (chunk_text ''A. B. C.'') (chunk ''A. B. C.'' 5 2) = [''A. B.'', ''B. C.''] \<and>
   reconstruct 2 [''A. B.'', ''B. C.''] = ''A. B. C.'' \<and>
   list_all whitespace [CHR '' '', CHR 0x0A] \<and> chunk [CHR '' '', CHR 0x0A] 5 2 = []"
proof -
  have nonblank: "\<not> list_all whitespace ''A. B. C.''"
    by (simp add: whitespace_def)
  have blank: "list_all whitespace [CHR '' '', CHR 0x0A]"
    by (simp add: whitespace_def)
  from chunk_reconstructs [of "''A. B. C.''" 5 2] nonblank
  have "reconstruct 2 (map (chunk_text ''A. B. C.'') (chunk ''A. B. C.'' 5 2)) = ''A. B. C.''"
    by blast
  moreover from chunk_reconstructs [of "[CHR '' '', CHR 0x0A]" 5 2] blank
  have "chunk [CHR '' '', CHR 0x0A] 5 2 = []"
    by blast
  ultimately show ?thesis
    using nonblank blank by (simp add: chunk_example)
qed

text \<open>
  C2 as stated fails at a text of one space: it has no chunks, and no chunks join to the
  empty string, not to the space.
\<close>

theorem chunk_reconstructs_counterexample:
  "chunk '' '' 5 1 = [] \<and> reconstruct 1 (map (chunk_text '' '') (chunk '' '' 5 1)) \<noteq> '' ''"
  by (simp add: chunk_def whitespace_def reconstruct_def)

section \<open>The vector index orders and bounds its results\<close>

lemma ranks_before_total: "ranks_before u a b \<or> ranks_before u b a"
  by (auto simp: ranks_before_def)

lemma ranks_before_trans: "ranks_before u a b \<Longrightarrow> ranks_before u b c \<Longrightarrow> ranks_before u a c"
  by (auto simp: ranks_before_def)

lemma mset_insert_hit: "mset (insert_hit u h xs) = add_mset h (mset xs)"
  by (induction xs) auto

lemma mset_sort_hits: "mset (sort_hits u hs) = mset hs"
  by (induction hs) (auto simp: mset_insert_hit)

lemma set_insert_hit: "set (insert_hit u h xs) = insert h (set xs)"
proof -
  have "set_mset (mset (insert_hit u h xs)) = set_mset (add_mset h (mset xs))"
    by (simp only: mset_insert_hit)
  then show ?thesis by simp
qed

lemma sorted_insert_hit:
  assumes "sorted_wrt (ranks_before u) xs"
  shows "sorted_wrt (ranks_before u) (insert_hit u h xs)"
  using assms
proof (induction xs)
  case Nil
  show ?case by simp
next
  case (Cons x xs)
  show ?case
  proof (cases "ranks_before u h x")
    case True
    with Cons.prems show ?thesis
      by (auto intro: ranks_before_trans)
  next
    case False
    then have "ranks_before u x h"
      using ranks_before_total by blast
    with Cons False show ?thesis
      by (auto simp: set_insert_hit)
  qed
qed

lemma sorted_sort_hits: "sorted_wrt (ranks_before u) (sort_hits u hs)"
  by (induction hs) (auto intro: sorted_insert_hit)

lemma length_sort_hits: "length (sort_hits u hs) = length hs"
proof -
  have "size (mset (sort_hits u hs)) = size (mset hs)"
    by (simp only: mset_sort_hits)
  then show ?thesis by simp
qed

lemma query_example:
  "query (\<lambda>a b. a * b) (\<lambda>d. d) 5 two_users_index 7 1 (Some 2) 7 None =
     Inr [\<lparr>hit_chunk = 3, hit_score = 3, hit_document = 2\<rparr>,
          \<lparr>hit_chunk = 2, hit_score = 3, hit_document = 1\<rparr>]"
  by (simp add: query_def two_users_index_def candidates_def effective_k_def ranks_before_def)

text \<open>
  C3. What \<open>query\<close> returns is ordered by falling score, and among equal scores by
  falling upload time of the document; it is the first \<open>effective_k\<close> of the hits of
  all entries the query may see, or all of them if they are fewer, and no hit left out
  ranks before one returned. The effective k is the caller's k, or the configured value
  when the caller gives none, clamped to 1 from below and to the size of the index from
  above: it lies between 1 and that size when the index is not empty, and is the caller's
  k when that lies there already.
\<close>

theorem query_ordered_and_clamped:
  assumes "query sim uploaded top_k index requester v k scope flt = Inr res"
  shows "sorted_wrt (\<lambda>a b. hit_score b < hit_score a \<or>
                       (hit_score a = hit_score b \<and>
                        uploaded (hit_document b) \<le> uploaded (hit_document a))) res \<and>
         length res = min (nat (effective_k top_k k (length index))) (length (candidates index scope flt)) \<and>
         (\<exists>rest. mset (res @ rest) =
                  mset (map (\<lambda>e. \<lparr>hit_chunk = entry_chunk e, hit_score = sim v (entry_vector e),
                                   hit_document = entry_document e\<rparr>) (candidates index scope flt)) \<and>
                 (\<forall>a\<in>set res. \<forall>b\<in>set rest. ranks_before uploaded a b)) \<and>
         effective_k top_k k (length index) =
           max 1 (min (case k of None \<Rightarrow> top_k | Some k' \<Rightarrow> k') (int (length index))) \<and>
         (index \<noteq> [] \<longrightarrow> 1 \<le> effective_k top_k k (length index) \<and>
                          effective_k top_k k (length index) \<le> int (length index)) \<and>
         (\<forall>k'. k = Some k' \<and> 1 \<le> k' \<and> k' \<le> int (length index) \<longrightarrow>
                 effective_k top_k k (length index) = k') \<and>
         (k = None \<longrightarrow> effective_k top_k k (length index) = effective_k top_k (Some top_k) (length index))"
proof -
  define hits where
    "hits = map (\<lambda>e. \<lparr>hit_chunk = entry_chunk e, hit_score = sim v (entry_vector e),
                      hit_document = entry_document e\<rparr>) (candidates index scope flt)"
  define n where "n = nat (effective_k top_k k (length index))"
  from assms have res: "res = take n (sort_hits uploaded hits)"
    by (auto simp: query_def hits_def n_def split: if_splits)
  have whole: "res @ drop n (sort_hits uploaded hits) = sort_hits uploaded hits"
    by (simp add: res)
  have "sorted_wrt (ranks_before uploaded) (sort_hits uploaded hits)"
    by (rule sorted_sort_hits)
  with whole have split: "sorted_wrt (ranks_before uploaded) (res @ drop n (sort_hits uploaded hits))"
    by simp
  then have "sorted_wrt (ranks_before uploaded) res"
    by (simp add: sorted_wrt_append)
  then have ordered: "sorted_wrt (\<lambda>a b. hit_score b < hit_score a \<or>
                       (hit_score a = hit_score b \<and>
                        uploaded (hit_document b) \<le> uploaded (hit_document a))) res"
    by (simp add: ranks_before_def [abs_def])
  have len: "length res = min n (length (candidates index scope flt))"
    by (simp add: res length_sort_hits hits_def)
  have "mset (res @ drop n (sort_hits uploaded hits)) = mset hits"
    by (simp only: whole mset_sort_hits)
  moreover from split
  have "\<forall>a\<in>set res. \<forall>b\<in>set (drop n (sort_hits uploaded hits)). ranks_before uploaded a b"
    by (simp add: sorted_wrt_append)
  ultimately have best: "\<exists>rest. mset (res @ rest) = mset hits \<and>
                 (\<forall>a\<in>set res. \<forall>b\<in>set rest. ranks_before uploaded a b)"
    by blast
  have clamp: "effective_k top_k k (length index) =
           max 1 (min (case k of None \<Rightarrow> top_k | Some k' \<Rightarrow> k') (int (length index)))"
    by (auto simp: effective_k_def Let_def)
  have bounds: "index \<noteq> [] \<longrightarrow> 1 \<le> effective_k top_k k (length index) \<and>
                          effective_k top_k k (length index) \<le> int (length index)"
    by (cases index) (auto simp: effective_k_def Let_def)
  have kept: "\<forall>k'. k = Some k' \<and> 1 \<le> k' \<and> k' \<le> int (length index) \<longrightarrow>
                 effective_k top_k k (length index) = k'"
    by (auto simp: effective_k_def)
  have dflt: "k = None \<longrightarrow>
        effective_k top_k k (length index) = effective_k top_k (Some top_k) (length index)"
    by (simp add: effective_k_def)
  from ordered len best clamp bounds kept dflt show ?thesis
    unfolding hits_def n_def by blast
qed

text \<open>
  C3 at an index of two users, four entries: the user 7 asks for two hits and gets the
  two of score 3, the newer document first; with no k the configured 5 is cut to 4, and a
  k of 0 is raised to 1.
\<close>

theorem query_ordered_and_clamped_witness:
  "sorted_wrt (\<lambda>a b. hit_score b < hit_score a \<or>
                 (hit_score a = hit_score b \<and> hit_document b \<le> hit_document a))
     [\<lparr>hit_chunk = 3, hit_score = 3::int, hit_document = 2\<rparr>,
      \<lparr>hit_chunk = 2, hit_score = 3, hit_document = 1\<rparr>] \<and>
   effective_k 5 (Some 2) (length two_users_index) = 2 \<and>
   effective_k 5 None (length two_users_index) = 4 \<and>
   effective_k 5 (Some 0) (length two_users_index) = 1"
proof -
  from query_ordered_and_clamped [OF query_example]
  have "sorted_wrt (\<lambda>a b. hit_score b < hit_score a \<or>
                 (hit_score a = hit_score b \<and> hit_document b \<le> hit_document a))
     [\<lparr>hit_chunk = 3, hit_score = 3::int, hit_document = 2\<rparr>,
      \<lparr>hit_chunk = 2, hit_score = 3, hit_document = 1\<rparr>]"
    and "effective_k 5 (Some 2) (length two_users_index) = 2"
    by (simp_all add: two_users_index_def)
  moreover have "effective_k 5 None (length two_users_index) = 4"
    "effective_k 5 (Some 0) (length two_users_index) = 1"
    by (simp_all add: effective_k_def two_users_index_def)
  ultimately show ?thesis by simp
qed

end
